theory Spec2Isabelle
  imports Main "HOL-Library.Sublist" "HOL-Library.Char_ord" "HOL-Library.List_Lexorder"
    "HOL-Library.AList"
begin

section \<open>Go errors\<close>

text \<open>
  Go error values as the package \<open>mcp\<close> builds and inspects them.  The package-level
  variable \<open>ErrElicitationNotSupported\<close> (\<open>errors.New\<close>, compared by pointer identity) is a
  constructor of its own, so that no other error value is equal to it.  \<open>Errorf\<close> is an error
  without an \<open>Unwrap\<close> chain (\<open>errors.New\<close>, \<open>fmt.Errorf\<close> without \<open>%w\<close>, errors of other
  packages), carrying its text.  \<open>Wrapf p e s\<close> is \<open>fmt.Errorf\<close> with one \<open>%w\<close> verb: the
  literal text \<open>p\<close> before the wrapped error \<open>e\<close> and the text \<open>s\<close> after it.
\<close>

datatype goerror =
    ErrElicitationNotSupported
  | Errorf string
  | Wrapf string goerror string

text \<open>The method \<open>Error()\<close>: the text of an error value.\<close>

fun error_text :: "goerror \<Rightarrow> string" where
  "error_text ErrElicitationNotSupported = ''client does not support elicitation''"
| "error_text (Errorf s) = s"
| "error_text (Wrapf p e s) = p @ error_text e @ s"


text \<open>\<open>strings.Contains s substr\<close>: \<open>substr\<close> occurs in \<open>s\<close> as a contiguous run of bytes.\<close>

definition Contains :: "string \<Rightarrow> string \<Rightarrow> bool" where
  "Contains s substr = sublist substr s"

section \<open>Descriptors\<close>

text \<open>
  \<open>jsonschema.Schema\<close> of the schema library: the fields the mutators read and write
  (\<open>Type\<close>, \<open>Description\<close>, \<open>Properties\<close>), and one field \<open>Other\<close> standing for all remaining
  keywords of the struct, \<open>None\<close> being their zero value.  \<open>Properties\<close> is a Go map, which
  may be nil: \<open>None\<close> is the nil map, \<open>Some Map.empty\<close> the empty one.
\<close>

datatype 'o Schema =
  Schema (Type: string) (Description: string)
         (Properties: "(string \<rightharpoonup> 'o Schema) option") (Other: "'o option")

text \<open>
  Modelled from the spec: the descriptor types \<open>api.ToolAnnotations\<close>, \<open>api.Tool\<close> and
  \<open>api.ServerTool\<close> are declared in package \<open>api\<close>, which is not among the sources.  The
  data model gives a descriptor a name, a description, an input schema, annotations (a title
  and four optional hints), an optional cluster-aware flag, an optional target-list-provider
  flag and a handler; the field names are those the sources and tests write.  The handler
  type \<open>'h\<close> is left open in the record; the mutator that installs a handler fixes it.
\<close>

record ToolAnnotations =
  Title :: string
  ReadOnlyHint :: "bool option"
  DestructiveHint :: "bool option"
  IdempotentHint :: "bool option"
  OpenWorldHint :: "bool option"

record 'o Tool =
  Name :: string
  Description' :: string
  Annotations :: ToolAnnotations
  InputSchema :: "'o Schema option"

record ('o, 'h) ServerTool =
  Tool :: "'o Tool"
  Handler :: "'h option"
  ClusterAware :: "bool option"
  TargetListProvider :: "bool option"

text \<open>
  Modelled from the spec: \<open>ServerTool.IsClusterAware\<close> is declared in package \<open>api\<close>, which
  is not among the sources.  The data model gives \<open>cluster-aware?: optional boolean (default
  true)\<close>, and the tests say that tools are cluster-aware by default.
\<close>

definition IsClusterAware :: "('o, 'h) ServerTool \<Rightarrow> bool" where
  "IsClusterAware tool = (case ClusterAware tool of None \<Rightarrow> True | Some b \<Rightarrow> b)"

section \<open>Mutators\<close>

type_synonym ('o, 'h) ToolMutator = "('o, 'h) ServerTool \<Rightarrow> ('o, 'h) ServerTool"

text \<open>\<open>ComposeMutators\<close>: the loop \<open>for _, m := range mutators { tool = m(tool) }\<close>.\<close>

fun ComposeMutators :: "('o, 'h) ToolMutator list \<Rightarrow> ('o, 'h) ToolMutator" where
  "ComposeMutators [] tool = tool"
| "ComposeMutators (m # mutators) tool = ComposeMutators mutators (m tool)"

definition TargetsListToolName :: string where
  "TargetsListToolName = ''targets_list''"

definition createTargetProperty :: "string \<Rightarrow> string \<Rightarrow> 'o Schema" where
  "createTargetProperty defaultCluster targetName =
     Schema ''string''
       (''Optional parameter selecting which '' @ targetName @
        '' to run the tool in. Defaults to '' @ defaultCluster @ '' if not set'')
       None None"

text \<open>
  \<open>WithTargetParameter\<close>, on the value of the descriptor it returns.  The three statements
  after the guard are kept apart as in the source: create the schema when the pointer is nil,
  create the map when it is nil, store the property.
\<close>

definition WithTargetParameter ::
  "string \<Rightarrow> string \<Rightarrow> bool \<Rightarrow> ('o, 'h) ToolMutator" where
  "WithTargetParameter defaultCluster targetParameterName isMultiCluster tool =
     (if \<not> IsClusterAware tool \<or> \<not> isMultiCluster then tool
      else
        let schema1 = (case InputSchema (Tool tool) of
                         None \<Rightarrow> Schema ''object'' '''' None None
                       | Some sc \<Rightarrow> sc);
            props1 = (case Properties schema1 of None \<Rightarrow> Map.empty | Some ps \<Rightarrow> ps);
            props2 = props1(targetParameterName \<mapsto>
                       createTargetProperty defaultCluster targetParameterName);
            schema2 = Schema (Type schema1) (Schema.Description schema1) (Some props2)
                        (Other schema1)
        in tool\<lparr>Tool := (Tool tool)\<lparr>InputSchema := Some schema2\<rparr>\<rparr>)"

text \<open>The descriptors the tests of the mutators build.\<close>

definition createTestTool :: "string \<Rightarrow> ('o, 'h) ServerTool" where
  "createTestTool name =
     \<lparr>Tool = \<lparr>Name = name, Description' = ''A test tool'',
              Annotations = \<lparr>Title = '''', ReadOnlyHint = None, DestructiveHint = None,
                              IdempotentHint = None, OpenWorldHint = None\<rparr>,
              InputSchema = Some (Schema ''object'' '''' (Some Map.empty) None)\<rparr>,
      Handler = None, ClusterAware = None, TargetListProvider = None\<rparr>"

definition createTestToolWithNilSchema :: "string \<Rightarrow> ('o, 'h) ServerTool" where
  "createTestToolWithNilSchema name =
     \<lparr>Tool = \<lparr>Name = name, Description' = ''A test tool'',
              Annotations = \<lparr>Title = '''', ReadOnlyHint = None, DestructiveHint = None,
                              IdempotentHint = None, OpenWorldHint = None\<rparr>,
              InputSchema = None\<rparr>,
      Handler = None, ClusterAware = None, TargetListProvider = None\<rparr>"

section \<open>Slices of strings in a store\<close>

text \<open>
  The target-list handler copies the slice it gets from the provider and sorts the copy in
  place, so slices are modelled with their backing arrays: the store is the list of all
  arrays allocated so far, an array's address is its index, and a slice is a window
  (\<open>Offset\<close>, \<open>Len\<close>) into the array at \<open>Array\<close>.  The code never appends, so the capacity
  is left out.
\<close>

type_synonym heap = "string list list"

record slice =
  Array :: nat
  Offset :: nat
  Len :: nat

definition valid_slice :: "heap \<Rightarrow> slice \<Rightarrow> bool" where
  "valid_slice h s = (Array s < length h \<and> Offset s + Len s \<le> length (h ! Array s))"

text \<open>The elements of a slice, in order.\<close>

definition load :: "heap \<Rightarrow> slice \<Rightarrow> string list" where
  "load h s = take (Len s) (drop (Offset s) (h ! Array s))"

text \<open>Writing \<open>xs\<close> over the first \<open>length xs\<close> elements of the window of \<open>s\<close>.\<close>

definition store :: "heap \<Rightarrow> slice \<Rightarrow> string list \<Rightarrow> heap" where
  "store h s xs =
     (let a = h ! Array s
      in h[Array s := take (Offset s) a @ xs @ drop (Offset s + length xs) a])"

text \<open>\<open>make([]string, n)\<close>: a new array of \<open>n\<close> empty strings and the slice of all of it.\<close>

definition make_slice :: "heap \<Rightarrow> nat \<Rightarrow> heap \<times> slice" where
  "make_slice h n = (h @ [replicate n ''''], \<lparr>Array = length h, Offset = 0, Len = n\<rparr>)"

text \<open>\<open>copy(dst, src)\<close> copies \<open>min(len(dst), len(src))\<close> elements.\<close>

definition copy :: "heap \<Rightarrow> slice \<Rightarrow> slice \<Rightarrow> heap" where
  "copy h dst src = store h dst (take (min (Len dst) (Len src)) (load h src))"

text \<open>
  \<open>sort.Strings\<close> sorts the window in place, in increasing byte-wise lexicographic order
  (Go's \<open><\<close> on strings), which is the order of \<open>char list\<close> here.
\<close>

definition sort_Strings :: "heap \<Rightarrow> slice \<Rightarrow> heap" where
  "sort_Strings h s = store h s (sort (load h s))"

section \<open>The target-list handler\<close>

text \<open>
  Modelled from the spec: \<open>api.ToolCallResult\<close> and \<open>api.NewToolCallResult\<close> are declared in
  package \<open>api\<close>, which is not among the sources.  The result is the payload text and the
  in-band error, the two fields the tests read (\<open>callResult.Content\<close>, \<open>callResult.Error\<close>).
\<close>

record ToolCallResult =
  Content :: string
  Error :: "goerror option"

definition NewToolCallResult :: "string \<Rightarrow> goerror option \<Rightarrow> ToolCallResult" where
  "NewToolCallResult content err = \<lparr>Content = content, Error = err\<rparr>"

text \<open>
  Modelled from the spec: \<open>api.ToolHandlerParams\<close> and \<open>api.ToolHandlerFunc\<close> are declared
  in package \<open>api\<close>, which is not among the sources.  Of the parameters the generated handler
  reads the context only.  A handler returns a result pointer and a transport-level error, and
  may change the store.
\<close>

record 'c ToolHandlerParams =
  Context :: 'c

type_synonym 'c ToolHandlerFunc =
  "'c ToolHandlerParams \<Rightarrow> heap \<Rightarrow> (ToolCallResult option \<times> goerror option) \<times> heap"

text \<open>
  Modelled from the spec: the provider interface is declared in package \<open>kubernetes\<close>, which
  is not among the sources.  Section 6 gives \<open>getTargets(ctx) -> (ordered sequence of target
  names, error)\<close>, the one method the handler calls; it returns a slice and an error and may
  allocate.
\<close>

record 'c Provider =
  GetTargets :: "'c \<Rightarrow> heap \<Rightarrow> (slice \<times> goerror option) \<times> heap"

text \<open>The provider of the tests returns its two fields and touches nothing.\<close>

definition mockProvider :: "slice \<Rightarrow> goerror option \<Rightarrow> 'c Provider" where
  "mockProvider targets err = \<lparr>GetTargets = (\<lambda>_ h. ((targets, err), h))\<rparr>"

text \<open>The verb \<open>%d\<close> on a length: decimal digits, most significant first.\<close>

fun Itoa :: "nat \<Rightarrow> string" where
  "Itoa n =
     (if n < 10 then [char_of (48 + n)] else Itoa (n div 10) @ [char_of (48 + n mod 10)])"

declare Itoa.simps [simp del]

abbreviation NL :: string where
  "NL \<equiv> [CHR 0x0A]"

text \<open>
  \<open>strings.ToUpper\<close> belongs to the standard library and maps every Unicode letter; it is the
  parameter \<open>toUpper\<close> of the definitions that call it.
\<close>

definition capitalizeFirst :: "(string \<Rightarrow> string) \<Rightarrow> string \<Rightarrow> string" where
  "capitalizeFirst toUpper s = (if length s = 0 then s else toUpper (take 1 s) @ drop 1 s)"

text \<open>One pass of the loop over the sorted targets.\<close>

definition target_line :: "string \<Rightarrow> string \<Rightarrow> string" where
  "target_line defaultTarget target =
     (if target = defaultTarget then ''*'' else '' '') @ '' '' @ target @ NL"

definition createTargetListHandler ::
  "(string \<Rightarrow> string) \<Rightarrow> 'c Provider \<Rightarrow> string \<Rightarrow> string \<Rightarrow> 'c ToolHandlerFunc" where
  "createTargetListHandler toUpper p targetParameterName defaultTarget params h =
     (case GetTargets p (Context params) h of
        ((targets, Some err), h1) \<Rightarrow>
          ((Some (NewToolCallResult ''''
                    (Some (Wrapf ''failed to find any targets: '' err ''''))), None), h1)
      | ((targets, None), h1) \<Rightarrow>
          if Len targets = 0 then
            ((Some (NewToolCallResult (''No '' @ targetParameterName @ ''s available'') None),
              None), h1)
          else
            let (h2, sortedTargets) = make_slice h1 (Len targets);
                h3 = copy h2 sortedTargets targets;
                h4 = sort_Strings h3 sortedTargets;
                result = ''Available '' @ targetParameterName @ ''s ('' @
                         Itoa (Len sortedTargets) @ '' total, default: '' @ defaultTarget @
                         ''):'' @ NL @ NL;
                result = result @ ''Format: [*] '' @ toUpper targetParameterName @ ''_NAME'' @ NL;
                result = result @ '' (* indicates the default '' @ targetParameterName @
                         '' used in tools if '' @ targetParameterName @ '' is not set)'' @
                         NL @ NL;
                result = result @ capitalizeFirst toUpper targetParameterName @ ''s:'' @ NL @
                         ''---------'' @ NL;
                result = foldl (\<lambda>r target. r @ target_line defaultTarget target) result
                           (load h4 sortedTargets);
                result = result @ ''---------'' @ NL @ NL;
                result = result @ ''To use a specific '' @ targetParameterName @
                         '' with any tool, set the '' @ [CHR 0x27] @ targetParameterName @
                         [CHR 0x27] @ '' parameter in the tool call arguments''
            in ((Some (NewToolCallResult result None), None), h4))"

definition WithTargetListTool ::
  "(string \<Rightarrow> string) \<Rightarrow> string \<Rightarrow> string \<Rightarrow> 'c Provider \<Rightarrow>
   ('o, 'c ToolHandlerFunc) ToolMutator" where
  "WithTargetListTool toUpper defaultTarget targetParameterName p tool =
     (if Name (Tool tool) \<noteq> TargetsListToolName then tool
      else tool
        \<lparr>Tool := (Tool tool)
           \<lparr>Name := targetParameterName @ ''_list'',
            Description' := ''List all available '' @ targetParameterName @
                            ''s that can be targeted by tools'',
            Annotations := (Annotations (Tool tool))
              \<lparr>Title := capitalizeFirst toUpper targetParameterName @ '' List''\<rparr>\<rparr>,
         Handler := Some (createTargetListHandler toUpper p targetParameterName defaultTarget)\<rparr>)"

section \<open>The filter for target-list descriptors\<close>




section \<open>The elicitation bridge\<close>


datatype 's any = NilValue | ServerSessionPtr "'s option" | OtherValue









section \<open>The output normalizer\<close>

text \<open>
  The result tree of the data model: \<open>Null | Boolean | Number | String | Sequence | Mapping\<close>,
  a mapping being ordered, hence a list of entries.  Numbers are never inspected; their type
  is the parameter \<open>'n\<close>.
\<close>

datatype 'n Value =
    Null
  | Boolean bool
  | Number 'n
  | String string
  | Sequence "'n Value list"
  | Mapping "(string \<times> 'n Value) list"

text \<open>
  Modelled from the spec: the normalizer (\<open>normalize\<close> in the specification,
  \<open>PruneForStructuredOutput\<close> in the tests) is defined in a file of package \<open>output\<close> that is
  not among the sources; the pruning of one resource is its helper.  Section 4.4, pruning
  rules a to c on a resource's \<open>metadata\<close>: remove the field-ownership entry
  (\<open>managedFields\<close>); if an \<open>annotations\<close> sub-mapping is present remove the
  last-applied-configuration key from it; if that leaves \<open>annotations\<close> empty remove the
  \<open>annotations\<close> key.  The two key names are those of the tests.
\<close>

definition pruneMetadata :: "(string \<times> 'n Value) list \<Rightarrow> (string \<times> 'n Value) list" where
  "pruneMetadata md =
     (let md1 = AList.delete ''managedFields'' md
      in case map_of md1 ''annotations'' of
           Some (Mapping an) \<Rightarrow>
             let an1 = AList.delete ''kubectl.kubernetes.io/last-applied-configuration'' an
             in if an1 = [] then AList.delete ''annotations'' md1
                else AList.update ''annotations'' (Mapping an1) md1
         | _ \<Rightarrow> md1)"

text \<open>
  Modelled from the spec: the dispatch of section 4.4.  Rule 1: a mapping with a \<open>metadata\<close>
  sub-mapping has its metadata pruned, and if it also has an \<open>items\<close> sequence, rule 1 is
  applied to each item.  Rule 2: a sequence is mapped element-wise, elements that are not
  mappings passing through unchanged.  Rule 3: any other value is returned unchanged.
\<close>

function PruneForStructuredOutput :: "'n Value \<Rightarrow> 'n Value" where
  "PruneForStructuredOutput (Mapping m) =
     (case map_of m ''metadata'' of
        Some (Mapping md) \<Rightarrow>
          let m1 = AList.update ''metadata'' (Mapping (pruneMetadata md)) m
          in (case map_of m ''items'' of
                Some (Sequence items) \<Rightarrow>
                  Mapping (AList.update ''items''
                    (Sequence
                      (map (\<lambda>x. case x of
                                   Mapping e \<Rightarrow> PruneForStructuredOutput (Mapping e)
                                 | _ \<Rightarrow> x) items)) m1)
              | _ \<Rightarrow> Mapping m1)
      | _ \<Rightarrow> Mapping m)"
| "PruneForStructuredOutput (Sequence xs) =
     Sequence (map (\<lambda>x. case x of
                           Mapping e \<Rightarrow> PruneForStructuredOutput (Mapping e)
                         | _ \<Rightarrow> x) xs)"
| "PruneForStructuredOutput Null = Null"
| "PruneForStructuredOutput (Boolean b) = Boolean b"
| "PruneForStructuredOutput (Number n) = Number n"
| "PruneForStructuredOutput (String s) = String s"
  by pat_completeness auto

termination
proof (relation "measure size")
  have entry: "map_of m k = Some v \<Longrightarrow> size v < size_list (size_prod (\<lambda>_. 0) size) m"
    for m :: "(string \<times> 'n Value) list" and k v
    by (induction m) (auto split: if_splits)
  have element: "x \<in> set xs \<Longrightarrow> size x < size (Sequence xs)"
    for x :: "'n Value" and xs
    by (induction xs) auto
  {
    show "wf (measure size)" by simp
  next
    fix m e :: "(string \<times> 'n Value) list" and x2a x5 x
    assume "map_of m ''items'' = Some x2a" and "x2a = Sequence x5" and "x \<in> set x5"
      and "x = Mapping e"
    then have "size (Mapping e) < size (Sequence x5)"
      and "size (Sequence x5) < size_list (size_prod (\<lambda>_. 0) size) m"
      using element [of x x5] entry [of m "''items''" "Sequence x5"]
      by simp_all
    then have "size (Mapping e) < size (Mapping m)" by simp
    then show "(Mapping e, Mapping m) \<in> measure size" by simp
  next
    fix xs :: "'n Value list" and x and e :: "(string \<times> 'n Value) list"
    assume "x \<in> set xs" and "x = Mapping e"
    then show "(Mapping e, Sequence xs) \<in> measure size"
      using element [of x xs] by simp
  }
qed

section \<open>Concrete inputs\<close>

text \<open>A descriptor whose schema exists but carries no type keyword.\<close>

definition untypedSchemaTool :: "(unit, unit) ServerTool" where
  "untypedSchemaTool =
     \<lparr>Tool = \<lparr>Name = ''test-tool'', Description' = ''A test tool'',
              Annotations = \<lparr>Title = '''', ReadOnlyHint = None, DestructiveHint = None,
                              IdempotentHint = None, OpenWorldHint = None\<rparr>,
              InputSchema = Some (Schema '''' '''' None None)\<rparr>,
      Handler = None, ClusterAware = None, TargetListProvider = None\<rparr>"

text \<open>\<open>strings.ToUpper\<close> on ASCII text, for the concrete runs of the handler.\<close>

definition asciiUpper :: "string \<Rightarrow> string" where
  "asciiUpper s = map (\<lambda>c. if CHR ''a'' \<le> c \<and> c \<le> CHR ''z''
                            then char_of (of_char c - (32::nat)) else c) s"






text \<open>
  Two result trees: a list resource whose one item carries field-ownership bookkeeping, and a
  single resource with bookkeeping and two annotations (as in the tests of the normalizer).
\<close>

definition podList :: "(string \<times> int Value) list" where
  "podList =
     [(''kind'', String ''PodList''),
      (''metadata'', Mapping []),
      (''items'', Sequence
         [Mapping [(''kind'', String ''Pod''),
                   (''metadata'', Mapping [(''name'', String ''pod-1''),
                                           (''managedFields'', Sequence [String ''data''])])]])]"

definition annotatedPod :: "(string \<times> int Value) list" where
  "annotatedPod =
     [(''apiVersion'', String ''v1''),
      (''kind'', String ''Pod''),
      (''metadata'', Mapping
         [(''name'', String ''test-pod''),
          (''managedFields'', Sequence [String ''field-manager-data'']),
          (''annotations'', Mapping
             [(''kubectl.kubernetes.io/last-applied-configuration'', String ''{}''),
              (''app.kubernetes.io/name'', String ''myapp'')])])]"

section \<open>Composition of mutators\<close>

lemma ComposeMutators_foldl: "ComposeMutators ms tool = foldl (\<lambda>t m. m t) tool ms"
  by (induction ms arbitrary: tool) simp_all

text \<open>
  Claim C7.  The composed mutator applies its constituents from left to right, each one on the
  output of the one before: for two mutators \<open>ComposeMutators [m1, m2] d = m2 (m1 d)\<close>, and
  with no mutator the composition returns the descriptor it is given.
\<close>

theorem ComposeMutators_left_to_right:
  "ComposeMutators [m1, m2] d = m2 (m1 d) \<and> ComposeMutators [] d = d"
  by simp

section \<open>The target parameter\<close>

lemma WithTargetParameter_schema:
  assumes "IsClusterAware tool"
  shows "InputSchema (Tool (WithTargetParameter d p True tool)) =
    Some (Schema (case InputSchema (Tool tool) of None \<Rightarrow> ''object'' | Some s0 \<Rightarrow> Type s0)
            (case InputSchema (Tool tool) of None \<Rightarrow> '''' | Some s0 \<Rightarrow> Schema.Description s0)
            (Some ((case InputSchema (Tool tool) of None \<Rightarrow> Map.empty
                    | Some s0 \<Rightarrow> (case Properties s0 of None \<Rightarrow> Map.empty | Some ps \<Rightarrow> ps))
                   (p \<mapsto> createTargetProperty d p)))
            (case InputSchema (Tool tool) of None \<Rightarrow> None | Some s0 \<Rightarrow> Other s0))"
  using assms by (simp add: WithTargetParameter_def Let_def split: option.split)

lemma WithTargetParameter_idem:
  "WithTargetParameter d p m (WithTargetParameter d p m tool) = WithTargetParameter d p m tool"
proof (cases "\<not> IsClusterAware tool \<or> \<not> m")
  case True
  then show ?thesis by (simp add: WithTargetParameter_def)
next
  case False
  then show ?thesis
    by (simp add: WithTargetParameter_def Let_def IsClusterAware_def split: option.split)
qed

text \<open>
  Claim C5, as stated, asks for an object-typed schema on every cluster-aware descriptor.  The
  mutator creates an object-typed schema only where the descriptor has none; a schema that is
  already there keeps its type.  On the descriptor below, whose schema has an empty type, the
  schema of the result is not object-typed.
\<close>

theorem WithTargetParameter_object_type_counterexample:
  "IsClusterAware untypedSchemaTool \<and>
   map_option Type
     (InputSchema (Tool (WithTargetParameter ''default-cluster'' ''cluster'' True
                           untypedSchemaTool))) = Some ''''"
  by (simp add: WithTargetParameter_def IsClusterAware_def untypedSchemaTool_def Let_def)

text \<open>
  Claim C5, amended.  For every cluster-aware descriptor under multi-target topology the
  result of \<open>WithTargetParameter d p True\<close> has an input schema, of type \<open>object\<close> when the
  descriptor had no schema and of the type of the descriptor's schema otherwise; the schema
  has a parameter map; the map holds at \<open>p\<close> a string-typed parameter whose description is
  \<open>Optional parameter selecting which p to run the tool in. Defaults to d if not set\<close>; every
  other parameter is as it was; and applying the mutator to its own result changes nothing.
  The map has one entry per name, so the parameter occurs once.
\<close>

theorem WithTargetParameter_multi_target:
  assumes "IsClusterAware tool"
  shows "\<exists>sc ps. InputSchema (Tool (WithTargetParameter d p True tool)) = Some sc \<and>
     Type sc = (case InputSchema (Tool tool) of None \<Rightarrow> ''object'' | Some s0 \<Rightarrow> Type s0) \<and>
     Properties sc = Some ps \<and>
     ps p = Some (Schema ''string''
                   (''Optional parameter selecting which '' @ p @
                    '' to run the tool in. Defaults to '' @ d @ '' if not set'') None None) \<and>
     (\<forall>q. q \<noteq> p \<longrightarrow>
        ps q = (case InputSchema (Tool tool) of
                  None \<Rightarrow> None
                | Some s0 \<Rightarrow> (case Properties s0 of None \<Rightarrow> None | Some ps0 \<Rightarrow> ps0 q))) \<and>
     WithTargetParameter d p True (WithTargetParameter d p True tool) =
       WithTargetParameter d p True tool"
  unfolding WithTargetParameter_schema [OF assms] WithTargetParameter_idem
  by (simp add: createTargetProperty_def split: option.split)

theorem WithTargetParameter_multi_target_witness:
  "IsClusterAware (createTestToolWithNilSchema ''test-tool'' :: (unit, unit) ServerTool) \<and>
   (\<exists>sc ps. InputSchema (Tool (WithTargetParameter ''default-cluster'' ''cluster'' True
                (createTestToolWithNilSchema ''test-tool'' :: (unit, unit) ServerTool))) = Some sc \<and>
      Type sc = ''object'' \<and> Properties sc = Some ps \<and>
      ps ''cluster'' = Some (Schema ''string''
        ''Optional parameter selecting which cluster to run the tool in. Defaults to default-cluster if not set''
        None None) \<and>
      ps ''existing-prop'' = None)"
proof -
  let ?T = "createTestToolWithNilSchema ''test-tool'' :: (unit, unit) ServerTool"
  have aware: "IsClusterAware ?T"
    by (simp add: IsClusterAware_def createTestToolWithNilSchema_def)
  have nil: "InputSchema (Tool ?T) = None"
    by (simp add: createTestToolWithNilSchema_def)
  from WithTargetParameter_multi_target [OF aware, of "''default-cluster''" "''cluster''"]
  obtain sc ps where
    "InputSchema (Tool (WithTargetParameter ''default-cluster'' ''cluster'' True ?T)) = Some sc"
    "Type sc = ''object''" "Properties sc = Some ps"
    "ps ''cluster'' = Some (Schema ''string''
        ''Optional parameter selecting which cluster to run the tool in. Defaults to default-cluster if not set''
        None None)"
    "ps ''existing-prop'' = None"
    unfolding nil by auto
  with aware show ?thesis by blast
qed

text \<open>
  Claim C6.  If the descriptor is not cluster-aware, or the topology is single-target, the
  mutator returns the descriptor it was given.
\<close>

theorem WithTargetParameter_identity:
  "\<not> IsClusterAware tool \<or> \<not> isMultiCluster \<Longrightarrow>
   WithTargetParameter d p isMultiCluster tool = tool"
  by (auto simp: WithTargetParameter_def)

theorem WithTargetParameter_identity_witness:
  "IsClusterAware (createTestTool ''test-tool'' :: (unit, unit) ServerTool) \<and>
   WithTargetParameter ''default-cluster'' ''cluster'' False
     (createTestTool ''test-tool'' :: (unit, unit) ServerTool) = createTestTool ''test-tool''"
proof -
  have single: "\<not> IsClusterAware (createTestTool ''test-tool'' :: (unit, unit) ServerTool) \<or>
                \<not> False"
    by simp
  show ?thesis
    using WithTargetParameter_identity [OF single, of "''default-cluster''" "''cluster''"]
    by (simp add: IsClusterAware_def createTestTool_def)
qed

section \<open>The generated target-list handler\<close>

lemma store_other: "a \<noteq> Array s \<Longrightarrow> store h s xs ! a = h ! a"
  by (simp add: store_def Let_def)

lemma length_store: "length (store h s xs) = length h"
  by (simp add: store_def Let_def)

lemma load_store_whole:
  "Array s < length h \<Longrightarrow> Offset s = 0 \<Longrightarrow> length xs = Len s \<Longrightarrow>
   Len s = length (h ! Array s) \<Longrightarrow> load (store h s xs) s = xs"
  by (simp add: load_def store_def Let_def)

lemma load_append_old: "Array s < length h \<Longrightarrow> load (h @ [a]) s = load h s"
  by (simp add: load_def nth_append)

lemma load_valid_length: "valid_slice h s \<Longrightarrow> length (load h s) = Len s"
  by (auto simp: load_def valid_slice_def)

lemma foldl_append_concat: "foldl (\<lambda>r x. r @ f x) init xs = init @ concat (map f xs)"
  by (induction xs arbitrary: init) simp_all

lemma sorted_copy_load:
  assumes "valid_slice h1 targets"
  shows "load (sort_Strings (copy (fst (make_slice h1 (Len targets)))
                                  (snd (make_slice h1 (Len targets))) targets)
                            (snd (make_slice h1 (Len targets))))
              (snd (make_slice h1 (Len targets)))
         = sort (load h1 targets)"
proof -
  let ?s = "\<lparr>Array = length h1, Offset = 0, Len = Len targets\<rparr>"
  let ?h2 = "h1 @ [replicate (Len targets) '''']"
  have v: "Array targets < length h1" using assms by (simp add: valid_slice_def)
  have l: "length (load h1 targets) = Len targets" using assms by (rule load_valid_length)
  have c: "load (copy ?h2 ?s targets) ?s = load h1 targets"
    unfolding copy_def using v l
    by (subst load_store_whole) (simp_all add: load_append_old)
  have "load (sort_Strings (copy ?h2 ?s targets) ?s) ?s = sort (load h1 targets)"
    unfolding sort_Strings_def c using l
    by (subst load_store_whole) (simp_all add: copy_def store_def Let_def)
  then show ?thesis by (simp add: make_slice_def)
qed

lemma sorted_copy_frame:
  assumes "a < length h1"
  shows "sort_Strings (copy (fst (make_slice h1 n)) (snd (make_slice h1 n)) targets)
                      (snd (make_slice h1 n)) ! a = h1 ! a"
  using assms
  by (simp add: sort_Strings_def copy_def make_slice_def store_other nth_append)

lemma sorted_copy_length:
  "length (sort_Strings (copy (fst (make_slice h1 n)) (snd (make_slice h1 n)) targets)
                        (snd (make_slice h1 n))) = Suc (length h1)"
  by (simp add: sort_Strings_def copy_def make_slice_def length_store)

lemma handler_error:
  assumes "GetTargets p (Context params) h = ((targets, Some e), h1)"
  shows "createTargetListHandler up p n d params h =
           ((Some (NewToolCallResult '''' (Some (Wrapf ''failed to find any targets: '' e ''''))),
             None), h1)"
  using assms by (simp add: createTargetListHandler_def)

lemma handler_sorted:
  assumes g: "GetTargets p (Context params) h = ((targets, None), h1)"
      and n: "Len targets \<noteq> 0"
  shows "\<exists>r. createTargetListHandler up p n d params h =
           ((Some r, None),
            sort_Strings (copy (fst (make_slice h1 (Len targets)))
                               (snd (make_slice h1 (Len targets))) targets)
                         (snd (make_slice h1 (Len targets)))) \<and>
          Error r = None \<and>
          Content r =
            ''Available '' @ n @ ''s ('' @ Itoa (Len targets) @ '' total, default: '' @ d @
            ''):'' @ NL @ NL @
            ''Format: [*] '' @ up n @ ''_NAME'' @ NL @
            '' (* indicates the default '' @ n @ '' used in tools if '' @ n @
            '' is not set)'' @ NL @ NL @
            capitalizeFirst up n @ ''s:'' @ NL @ ''---------'' @ NL @
            concat (map (target_line d)
              (load (sort_Strings (copy (fst (make_slice h1 (Len targets)))
                               (snd (make_slice h1 (Len targets))) targets)
                         (snd (make_slice h1 (Len targets))))
                    (snd (make_slice h1 (Len targets))))) @
            ''---------'' @ NL @ NL @
            ''To use a specific '' @ n @ '' with any tool, set the '' @ [CHR 0x27] @ n @
            [CHR 0x27] @ '' parameter in the tool call arguments''"
  using g n
  by (simp add: createTargetListHandler_def Let_def split_beta NewToolCallResult_def
      foldl_append_concat make_slice_def)

lemma WithTargetListTool_handler:
  "Name (Tool tool) = TargetsListToolName \<Longrightarrow>
   Handler (WithTargetListTool up d n p tool) = Some (createTargetListHandler up p n d)"
  by (simp add: WithTargetListTool_def)

lemma Contains_append: "Contains t x \<Longrightarrow> Contains (p @ t @ s) x"
  unfolding Contains_def
  by (meson sublist_appendI sublist_order.order_trans)

lemma Contains_prefix: "Contains (x @ s) x"
  by (simp add: Contains_def)

lemma Contains_self: "Contains x x"
  by (simp add: Contains_def)

text \<open>
  Claim C4.  When the provider's enumeration fails with an error \<open>e\<close>, the handler that
  \<open>WithTargetListTool\<close> installs returns a call result and no transport-level error; the
  result's error payload has the text \<open>failed to find any targets: \<close> followed by the text
  of \<open>e\<close>, so it contains both the fixed prefix and the text of the provider's error.
\<close>

theorem target_list_provider_error_in_band:
  assumes "Name (Tool tool) = TargetsListToolName"
      and "GetTargets p (Context params) h = ((targets, Some e), h1)"
  shows "\<exists>handler r e'.
           Handler (WithTargetListTool up d n p tool) = Some handler \<and>
           handler params h = ((Some r, None), h1) \<and>
           Error r = Some e' \<and>
           error_text e' = ''failed to find any targets: '' @ error_text e \<and>
           Contains (error_text e') ''failed to find any targets'' \<and>
           Contains (error_text e') (error_text e)"
proof -
  let ?e' = "Wrapf ''failed to find any targets: '' e ''''"
  have t: "error_text ?e' = ''failed to find any targets: '' @ error_text e" by simp
  have "''failed to find any targets: '' @ error_text e
        = ''failed to find any targets'' @ ('': '' @ error_text e)" by simp
  then have c1: "Contains (error_text ?e') ''failed to find any targets''"
    unfolding t by (metis Contains_prefix)
  have c2: "Contains (error_text ?e') (error_text e)"
    using Contains_append [OF Contains_self, of "''failed to find any targets: ''" "error_text e" "''''"]
    by simp
  show ?thesis
    using WithTargetListTool_handler [OF assms(1)] handler_error [OF assms(2)] t c1 c2
    by (simp add: NewToolCallResult_def)
qed

theorem target_list_provider_error_in_band_witness:
  "Name (Tool (createTestTool TargetsListToolName :: (unit, unit ToolHandlerFunc) ServerTool))
     = TargetsListToolName \<and>
   (\<exists>handler r e'.
      Handler (WithTargetListTool asciiUpper ''default'' ''cluster''
                 (mockProvider \<lparr>Array = 0, Offset = 0, Len = 0\<rparr> (Some (Errorf ''unauthorized'')))
                 (createTestTool TargetsListToolName :: (unit, unit ToolHandlerFunc) ServerTool))
        = Some handler \<and>
      handler \<lparr>Context = ()\<rparr> [] = ((Some r, None), []) \<and>
      Error r = Some e' \<and>
      error_text e' = ''failed to find any targets: unauthorized'' \<and>
      Contains (error_text e') ''failed to find any targets'' \<and>
      Contains (error_text e') ''unauthorized'')"
proof -
  have name: "Name (Tool (createTestTool TargetsListToolName
                :: (unit, unit ToolHandlerFunc) ServerTool)) = TargetsListToolName"
    by (simp add: createTestTool_def)
  have get: "GetTargets (mockProvider \<lparr>Array = 0, Offset = 0, Len = 0\<rparr>
                (Some (Errorf ''unauthorized''))) (Context \<lparr>Context = ()\<rparr>) []
             = ((\<lparr>Array = 0, Offset = 0, Len = 0\<rparr>, Some (Errorf ''unauthorized'')), [])"
    by (simp add: mockProvider_def)
  show ?thesis
    using name target_list_provider_error_in_band [OF name get, of asciiUpper "''default''" "''cluster''"]
    by simp
qed

text \<open>
  Claim C10.  When the provider's enumeration succeeds with a non-empty slice, the handler
  allocates a new array (its address is the first one past the store the provider left), copies
  the targets into it, sorts it, and renders the report from it; every array that existed
  before is unchanged, and the slice the provider returned still reads the same elements in
  the same order.
\<close>

theorem target_list_sorts_fresh_copy:
  assumes tl: "Name (Tool tool) = TargetsListToolName"
      and g: "GetTargets p (Context params) h = ((targets, None), h1)"
      and v: "valid_slice h1 targets"
      and ne: "Len targets \<noteq> 0"
  shows "\<exists>handler r hf sortedTargets.
           Handler (WithTargetListTool up d n p tool) = Some handler \<and>
           handler params h = ((Some r, None), hf) \<and>
           Array sortedTargets = length h1 \<and>
           length hf = Suc (length h1) \<and>
           load hf sortedTargets = sort (load h1 targets) \<and>
           (\<forall>a. a < length h1 \<longrightarrow> hf ! a = h1 ! a) \<and>
           load hf targets = load h1 targets \<and>
           Content r =
             ''Available '' @ n @ ''s ('' @ Itoa (Len targets) @ '' total, default: '' @ d @
             ''):'' @ NL @ NL @
             ''Format: [*] '' @ up n @ ''_NAME'' @ NL @
             '' (* indicates the default '' @ n @ '' used in tools if '' @ n @
             '' is not set)'' @ NL @ NL @
             capitalizeFirst up n @ ''s:'' @ NL @ ''---------'' @ NL @
             concat (map (target_line d) (load hf sortedTargets)) @
             ''---------'' @ NL @ NL @
             ''To use a specific '' @ n @ '' with any tool, set the '' @ [CHR 0x27] @ n @
             [CHR 0x27] @ '' parameter in the tool call arguments''"
proof -
  let ?s = "snd (make_slice h1 (Len targets))"
  let ?hf = "sort_Strings (copy (fst (make_slice h1 (Len targets))) ?s targets) ?s"
  from handler_sorted [OF g ne, of up n d] obtain r where
    run: "createTargetListHandler up p n d params h = ((Some r, None), ?hf)" and
    content: "Content r =
             ''Available '' @ n @ ''s ('' @ Itoa (Len targets) @ '' total, default: '' @ d @
             ''):'' @ NL @ NL @
             ''Format: [*] '' @ up n @ ''_NAME'' @ NL @
             '' (* indicates the default '' @ n @ '' used in tools if '' @ n @
             '' is not set)'' @ NL @ NL @
             capitalizeFirst up n @ ''s:'' @ NL @ ''---------'' @ NL @
             concat (map (target_line d) (load ?hf ?s)) @
             ''---------'' @ NL @ NL @
             ''To use a specific '' @ n @ '' with any tool, set the '' @ [CHR 0x27] @ n @
             [CHR 0x27] @ '' parameter in the tool call arguments''"
    by blast
  have fresh: "Array ?s = length h1" by (simp add: make_slice_def)
  have len: "length ?hf = Suc (length h1)" by (rule sorted_copy_length)
  have sorted: "load ?hf ?s = sort (load h1 targets)" by (rule sorted_copy_load [OF v])
  have frame: "\<forall>a. a < length h1 \<longrightarrow> ?hf ! a = h1 ! a" by (simp add: sorted_copy_frame)
  have "Array targets < length h1" using v by (simp add: valid_slice_def)
  then have same: "load ?hf targets = load h1 targets"
    using frame by (simp add: load_def)
  show ?thesis
    using WithTargetListTool_handler [OF tl, of up d n p] run fresh len sorted frame same content
    by blast
qed

theorem target_list_sorts_fresh_copy_witness:
  "valid_slice [[''cluster-3'', ''cluster-1'', ''cluster-2'']] \<lparr>Array = 0, Offset = 0, Len = 3\<rparr> \<and>
   (\<exists>handler r hf sortedTargets.
      Handler (WithTargetListTool asciiUpper ''default-cluster'' ''cluster''
                 (mockProvider \<lparr>Array = 0, Offset = 0, Len = 3\<rparr> None)
                 (createTestTool TargetsListToolName :: (unit, unit ToolHandlerFunc) ServerTool))
        = Some handler \<and>
      handler \<lparr>Context = ()\<rparr> [[''cluster-3'', ''cluster-1'', ''cluster-2'']]
        = ((Some r, None), hf) \<and>
      load hf sortedTargets = [''cluster-1'', ''cluster-2'', ''cluster-3''] \<and>
      hf ! 0 = [''cluster-3'', ''cluster-1'', ''cluster-2''] \<and>
      load hf \<lparr>Array = 0, Offset = 0, Len = 3\<rparr> = [''cluster-3'', ''cluster-1'', ''cluster-2''])"
proof -
  let ?T = "\<lparr>Array = 0, Offset = 0, Len = 3\<rparr>"
  let ?H = "[[''cluster-3'', ''cluster-1'', ''cluster-2'']]"
  have name: "Name (Tool (createTestTool TargetsListToolName
                :: (unit, unit ToolHandlerFunc) ServerTool)) = TargetsListToolName"
    by (simp add: createTestTool_def)
  have get: "GetTargets (mockProvider ?T None) (Context \<lparr>Context = ()\<rparr>) ?H = ((?T, None), ?H)"
    by (simp add: mockProvider_def)
  have valid: "valid_slice ?H ?T" by (simp add: valid_slice_def)
  have nonempty: "Len ?T \<noteq> 0" by simp
  have ld: "load ?H ?T = [''cluster-3'', ''cluster-1'', ''cluster-2'']" by (simp add: load_def)
  have srt: "sort [''cluster-3'', ''cluster-1'', ''cluster-2'']
             = [''cluster-1'', ''cluster-2'', ''cluster-3'']" by code_simp
  from target_list_sorts_fresh_copy [OF name get valid nonempty,
       of asciiUpper "''default-cluster''" "''cluster''"]
  obtain handler r hf sortedTargets where
    "Handler (WithTargetListTool asciiUpper ''default-cluster'' ''cluster''
                 (mockProvider ?T None)
                 (createTestTool TargetsListToolName :: (unit, unit ToolHandlerFunc) ServerTool))
        = Some handler"
    "handler \<lparr>Context = ()\<rparr> ?H = ((Some r, None), hf)"
    "load hf sortedTargets = sort (load ?H ?T)"
    "\<forall>a. a < length ?H \<longrightarrow> hf ! a = ?H ! a"
    "load hf ?T = load ?H ?T"
    by blast
  then show ?thesis using valid unfolding ld srt by auto
qed


section \<open>The sentinel of the elicitation bridge\<close>






section \<open>Which target-list descriptor surfaces\<close>



section \<open>The normalizer is idempotent\<close>

lemma pruneMetadata_idem: "pruneMetadata (pruneMetadata md) = pruneMetadata md"
proof -
  let ?md1 = "AList.delete ''managedFields'' md"
  show ?thesis
  proof (cases "map_of ?md1 ''annotations''")
    case None
    then show ?thesis by (simp add: pruneMetadata_def Let_def delete_idem)
  next
    case (Some v)
    show ?thesis
    proof (cases v)
      case (Mapping an)
      let ?an1 = "AList.delete ''kubectl.kubernetes.io/last-applied-configuration'' an"
      show ?thesis
      proof (cases "?an1 = []")
        case True
        with Some Mapping have r: "pruneMetadata md = AList.delete ''annotations'' ?md1"
          by (simp add: pruneMetadata_def Let_def)
        have "AList.delete ''managedFields'' (AList.delete ''annotations'' ?md1)
              = AList.delete ''annotations'' ?md1"
          by (simp add: delete_twist [of "''managedFields''"] delete_idem)
        then show ?thesis unfolding r
          by (simp add: pruneMetadata_def [of "AList.delete ''annotations'' ?md1"] Let_def delete_conv)
      next
        case False
        with Some Mapping have r: "pruneMetadata md = AList.update ''annotations'' (Mapping ?an1) ?md1"
          by (simp add: pruneMetadata_def Let_def)
        have "AList.delete ''managedFields'' (AList.update ''annotations'' (Mapping ?an1) ?md1)
              = AList.update ''annotations'' (Mapping ?an1) ?md1"
          by (simp add: delete_update delete_idem)
        then show ?thesis unfolding r using False
          by (simp add: pruneMetadata_def [of "AList.update ''annotations'' (Mapping ?an1) ?md1"]
              Let_def update_conv delete_idem)
      qed
    qed (use Some in \<open>simp_all add: pruneMetadata_def Let_def delete_idem\<close>)
  qed
qed

lemma PruneForStructuredOutput_Mapping: "\<exists>m'. PruneForStructuredOutput (Mapping m) = Mapping m'"
  by (simp add: Let_def split: option.split Value.split)

text \<open>
  Claim C8.  Normalizing a normalized result tree changes nothing: the normalizer is a total
  function of the tree alone, and applying it twice gives what applying it once gives.
\<close>

theorem PruneForStructuredOutput_idempotent:
  "PruneForStructuredOutput (PruneForStructuredOutput v) = PruneForStructuredOutput v"
proof (induction v rule: PruneForStructuredOutput.induct)
  case (1 m)
  show ?case
  proof (cases "map_of m ''metadata''")
    case None
    then show ?thesis by simp
  next
    case (Some mdv)
    show ?thesis
    proof (cases mdv)
      case (Mapping md)
      let ?m1 = "AList.update ''metadata'' (Mapping (pruneMetadata md)) m"
      have items_m1: "map_of ?m1 ''items'' = map_of m ''items''"
        by (simp add: update_conv)
      have meta_m1: "map_of ?m1 ''metadata'' = Some (Mapping (pruneMetadata md))"
        by (simp add: update_conv)
      have upd_m1: "AList.update ''metadata'' (Mapping (pruneMetadata md)) ?m1 = ?m1"
        by simp
      show ?thesis
      proof (cases "\<exists>items. map_of m ''items'' = Some (Sequence items)")
        case True
        then obtain items where it: "map_of m ''items'' = Some (Sequence items)" by blast
        let ?f = "\<lambda>x. case x of Mapping e \<Rightarrow> PruneForStructuredOutput (Mapping e) | _ \<Rightarrow> x"
        let ?r = "AList.update ''items'' (Sequence (map ?f items)) ?m1"
        have r: "PruneForStructuredOutput (Mapping m) = Mapping ?r"
          using Some Mapping it by simp
        have ff: "?f (?f x) = ?f x" if "x \<in> set items" for x
        proof (cases x)
          case (Mapping e)
          obtain e' where e': "PruneForStructuredOutput (Mapping e) = Mapping e'"
            using PruneForStructuredOutput_Mapping by blast
          have "PruneForStructuredOutput (PruneForStructuredOutput (Mapping e)) = PruneForStructuredOutput (Mapping e)"
            using "1.IH" [OF Some \<open>mdv = Value.Mapping md\<close> refl it refl that Mapping] Mapping
            by simp
          then show ?thesis using Mapping e' by simp
        qed simp_all
        have mm: "map ?f (map ?f items) = map ?f items"
          using ff by simp
        have meta_r: "map_of ?r ''metadata'' = Some (Mapping (pruneMetadata md))"
          by (simp add: update_conv)
        have items_r: "map_of ?r ''items'' = Some (Sequence (map ?f items))"
          by (simp add: update_conv)
        have upd_r: "AList.update ''metadata'' (Mapping (pruneMetadata md)) ?r = ?r"
          using meta_r by (rule update_triv)
        have "PruneForStructuredOutput (Mapping ?r) = Mapping ?r"
          apply (subst PruneForStructuredOutput.simps)
          apply (simp only: meta_r items_r option.case Value.case Let_def pruneMetadata_idem upd_r mm)
          apply simp
          done
        then show ?thesis by (simp only: r)
      next
        case False
        then have r: "PruneForStructuredOutput (Mapping m) = Mapping ?m1"
          using Some Mapping by (auto simp: Let_def split: option.split Value.split)
        have "PruneForStructuredOutput (Mapping ?m1) = Mapping ?m1"
          apply (subst PruneForStructuredOutput.simps)
          apply (simp only: meta_m1 items_m1 option.case Value.case Let_def pruneMetadata_idem upd_m1)
          using False apply (auto split: option.split Value.split)
          done
        then show ?thesis by (simp only: r)
      qed
    qed (use Some in simp_all)
  qed
next
  case (2 xs)
  let ?f = "\<lambda>x. case x of Mapping e \<Rightarrow> PruneForStructuredOutput (Mapping e) | _ \<Rightarrow> x"
  have ff: "?f (?f x) = ?f x" if "x \<in> set xs" for x
  proof (cases x)
    case (Mapping e)
    obtain e' where e': "PruneForStructuredOutput (Mapping e) = Mapping e'"
      using PruneForStructuredOutput_Mapping by blast
    have "PruneForStructuredOutput (PruneForStructuredOutput (Mapping e)) = PruneForStructuredOutput (Mapping e)"
      using "2.IH" [OF that Mapping] Mapping by simp
    then show ?thesis using Mapping e' by simp
  qed simp_all
  then have "map ?f (map ?f xs) = map ?f xs" by simp
  then show ?case by simp
qed simp_all


section \<open>What the normalizer removes and what it keeps\<close>

text \<open>
  Claim C3, as stated, has every field other than the two pruned ones preserved exactly, for
  every mapping with a \<open>metadata\<close> sub-mapping.  A list resource is such a mapping, and by
  rule 1 its items are normalized too: the \<open>items\<close> field of the list below changes.
\<close>

theorem PruneForStructuredOutput_items_counterexample:
  "map_of podList ''metadata'' = Some (Mapping []) \<and>
   PruneForStructuredOutput (Mapping podList) =
     Mapping [(''kind'', String ''PodList''),
              (''metadata'', Mapping []),
              (''items'', Sequence
                 [Mapping [(''kind'', String ''Pod''),
                           (''metadata'', Mapping [(''name'', String ''pod-1'')])]])] \<and>
   map_of [(''kind'', String ''PodList''),
           (''metadata'', Mapping []),
           (''items'', Sequence
              [Mapping [(''kind'', String ''Pod''),
                        (''metadata'', Mapping [(''name'', String ''pod-1'')])]])] ''items''
     \<noteq> map_of podList ''items''"
  by (simp add: podList_def pruneMetadata_def AList.delete_eq)

lemma delete_empty_iff:
  "AList.delete k al = [] \<longleftrightarrow> (\<forall>k'. k' \<noteq> k \<longrightarrow> map_of al k' = None)"
proof
  assume e: "AList.delete k al = []"
  show "\<forall>k'. k' \<noteq> k \<longrightarrow> map_of al k' = None"
  proof (intro allI impI)
    fix k' assume "k' \<noteq> k"
    then have "map_of al k' = map_of (AList.delete k al) k'" by (simp add: delete_conv)
    then show "map_of al k' = None" by (simp add: e)
  qed
next
  assume n: "\<forall>k'. k' \<noteq> k \<longrightarrow> map_of al k' = None"
  have "fst x = k" if "x \<in> set al" for x
  proof (rule ccontr)
    assume "fst x \<noteq> k"
    then have "map_of al (fst x) = None" using n by blast
    then have "fst x \<notin> fst ` set al" by (simp add: map_of_eq_None_iff)
    then show False using that by blast
  qed
  then show "AList.delete k al = []"
    by (auto simp: AList.delete_eq filter_empty_conv)
qed

lemma pruneMetadata_managedFields: "map_of (pruneMetadata md) ''managedFields'' = None"
  by (simp add: pruneMetadata_def Let_def delete_conv update_conv
      split: option.split Value.split)

lemma pruneMetadata_other:
  "k \<noteq> ''managedFields'' \<Longrightarrow> k \<noteq> ''annotations'' \<Longrightarrow>
   map_of (pruneMetadata md) k = map_of md k"
  by (simp add: pruneMetadata_def Let_def delete_conv update_conv
      split: option.split Value.split)

lemma pruneMetadata_annotations_Mapping:
  assumes "map_of md ''annotations'' = Some (Mapping an)"
  shows "map_of (pruneMetadata md) ''annotations'' =
           (if \<forall>k. k \<noteq> ''kubectl.kubernetes.io/last-applied-configuration'' \<longrightarrow> map_of an k = None
            then None
            else Some (Mapping
                   (AList.delete ''kubectl.kubernetes.io/last-applied-configuration'' an)))"
proof -
  have a: "map_of (AList.delete ''managedFields'' md) ''annotations'' = Some (Mapping an)"
    using assms by (simp add: delete_conv)
  show ?thesis
    unfolding pruneMetadata_def Let_def a
    by (auto simp: delete_empty_iff delete_conv update_conv)
qed

lemma pruneMetadata_annotations_other:
  assumes "\<forall>an. map_of md ''annotations'' \<noteq> Some (Mapping an)"
  shows "map_of (pruneMetadata md) ''annotations'' = map_of md ''annotations''"
proof -
  have a: "map_of (AList.delete ''managedFields'' md) ''annotations'' = map_of md ''annotations''"
    by (simp add: delete_conv)
  show ?thesis
    using assms unfolding pruneMetadata_def Let_def a
    by (auto simp: delete_conv split: option.split Value.split)
qed

lemma update_present_keys:
  "map_of al k = Some v \<Longrightarrow> map fst (AList.update k w al) = map fst al"
  by (auto simp: update_keys dest: map_of_SomeD intro: rev_image_eqI)

lemma PruneForStructuredOutput_unfold:
  assumes "map_of m ''metadata'' = Some (Mapping md)"
  shows "PruneForStructuredOutput (Mapping m) =
           Mapping (case map_of m ''items'' of
                      Some (Sequence items) \<Rightarrow>
                        AList.update ''items''
                          (Sequence (map (\<lambda>x. case x of Mapping e \<Rightarrow> PruneForStructuredOutput x | _ \<Rightarrow> x) items))
                          (AList.update ''metadata'' (Mapping (pruneMetadata md)) m)
                    | _ \<Rightarrow> AList.update ''metadata'' (Mapping (pruneMetadata md)) m)"
proof -
  have f: "(\<lambda>x. case x of Mapping e \<Rightarrow> PruneForStructuredOutput (Mapping e) | _ \<Rightarrow> x)
           = (\<lambda>x::'a Value. case x of Mapping e \<Rightarrow> PruneForStructuredOutput x | _ \<Rightarrow> x)"
    by (auto split: Value.split)
  show ?thesis
    using assms by (simp add: Let_def f split: option.split Value.split)
qed

text \<open>
  Claim C3, amended.  For a mapping \<open>m\<close> with a \<open>metadata\<close> sub-mapping \<open>md\<close> the normalizer
  returns a mapping with the same keys in the same order, in which: \<open>metadata\<close> is a mapping
  without \<open>managedFields\<close>, whatever that entry held; an \<open>annotations\<close> sub-mapping of \<open>md\<close>
  loses exactly the last-applied-configuration key, and the \<open>annotations\<close> key is gone when
  no other annotation is left; every other entry of \<open>md\<close>, and an \<open>annotations\<close> entry that is
  not a mapping, is as it was; every entry of \<open>m\<close> other than \<open>metadata\<close> and \<open>items\<close> is as it
  was; and an \<open>items\<close> entry is as it was unless it is a sequence, whose mapping elements are
  then normalized in the same way.
\<close>

theorem PruneForStructuredOutput_resource:
  assumes "map_of m ''metadata'' = Some (Mapping md)"
  shows "\<exists>m' md'.
     PruneForStructuredOutput (Mapping m) = Mapping m' \<and>
     map fst m' = map fst m \<and>
     map_of m' ''metadata'' = Some (Mapping md') \<and>
     map_of m' ''items'' =
       (case map_of m ''items'' of
          Some (Sequence items) \<Rightarrow>
            Some (Sequence (map (\<lambda>x. case x of Mapping e \<Rightarrow> PruneForStructuredOutput x
                                      | _ \<Rightarrow> x) items))
        | other \<Rightarrow> other) \<and>
     (\<forall>k. k \<noteq> ''metadata'' \<and> k \<noteq> ''items'' \<longrightarrow> map_of m' k = map_of m k) \<and>
     map_of md' ''managedFields'' = None \<and>
     (\<forall>k. k \<noteq> ''managedFields'' \<and> k \<noteq> ''annotations'' \<longrightarrow> map_of md' k = map_of md k) \<and>
     (case map_of md ''annotations'' of
        Some (Mapping an) \<Rightarrow>
          if \<forall>k. k \<noteq> ''kubectl.kubernetes.io/last-applied-configuration'' \<longrightarrow>
                 map_of an k = None
          then map_of md' ''annotations'' = None
          else \<exists>an'. map_of md' ''annotations'' = Some (Mapping an') \<and>
                (\<forall>k. map_of an' k =
                   (if k = ''kubectl.kubernetes.io/last-applied-configuration'' then None
                    else map_of an k))
      | other \<Rightarrow> map_of md' ''annotations'' = other)"
proof -
  let ?f = "\<lambda>x::'a Value. case x of Mapping e \<Rightarrow> PruneForStructuredOutput x | _ \<Rightarrow> x"
  let ?m1 = "AList.update ''metadata'' (Mapping (pruneMetadata md)) m"
  let ?m' = "case map_of m ''items'' of
               Some (Sequence items) \<Rightarrow> AList.update ''items'' (Sequence (map ?f items)) ?m1
             | _ \<Rightarrow> ?m1"
  let ?md' = "pruneMetadata md"
  have run: "PruneForStructuredOutput (Mapping m) = Mapping ?m'"
    by (rule PruneForStructuredOutput_unfold [OF assms])
  have keys1: "map fst ?m1 = map fst m"
    by (rule update_present_keys [OF assms])
  have keys: "map fst ?m' = map fst m"
  proof (cases "\<exists>items. map_of m ''items'' = Some (Sequence items)")
    case True
    then obtain items where it: "map_of m ''items'' = Some (Sequence items)" by blast
    then have "map_of ?m1 ''items'' = Some (Sequence items)" by (simp add: update_conv)
    then have "map fst (AList.update ''items'' (Sequence (map ?f items)) ?m1) = map fst ?m1"
      by (rule update_present_keys)
    then show ?thesis using it keys1 by simp
  next
    case False
    then show ?thesis using keys1 by (auto split: option.split Value.split)
  qed
  have meta: "map_of ?m' ''metadata'' = Some (Mapping ?md')"
    by (simp add: update_conv split: option.split Value.split)
  have items: "map_of ?m' ''items'' =
       (case map_of m ''items'' of
          Some (Sequence items) \<Rightarrow> Some (Sequence (map ?f items))
        | other \<Rightarrow> other)"
    by (simp add: update_conv split: option.split Value.split)
  have rest: "\<forall>k. k \<noteq> ''metadata'' \<and> k \<noteq> ''items'' \<longrightarrow> map_of ?m' k = map_of m k"
    by (simp add: update_conv split: option.split Value.split)
  have mf: "map_of ?md' ''managedFields'' = None"
    by (rule pruneMetadata_managedFields)
  have other: "\<forall>k. k \<noteq> ''managedFields'' \<and> k \<noteq> ''annotations'' \<longrightarrow>
                 map_of ?md' k = map_of md k"
    by (simp add: pruneMetadata_other)
  have ann: "case map_of md ''annotations'' of
        Some (Mapping an) \<Rightarrow>
          if \<forall>k. k \<noteq> ''kubectl.kubernetes.io/last-applied-configuration'' \<longrightarrow>
                 map_of an k = None
          then map_of ?md' ''annotations'' = None
          else \<exists>an'. map_of ?md' ''annotations'' = Some (Mapping an') \<and>
                (\<forall>k. map_of an' k =
                   (if k = ''kubectl.kubernetes.io/last-applied-configuration'' then None
                    else map_of an k))
      | other \<Rightarrow> map_of ?md' ''annotations'' = other"
  proof (cases "\<exists>an. map_of md ''annotations'' = Some (Mapping an)")
    case True
    then obtain an where an: "map_of md ''annotations'' = Some (Mapping an)" by blast
    show ?thesis
      unfolding an pruneMetadata_annotations_Mapping [OF an]
      by (auto simp: delete_conv)
  next
    case False
    then have "\<forall>an. map_of md ''annotations'' \<noteq> Some (Mapping an)" by blast
    from pruneMetadata_annotations_other [OF this] False show ?thesis
      by (auto split: option.split Value.split)
  qed
  show ?thesis
    apply (rule exI [of _ ?m'])
    apply (rule exI [of _ ?md'])
    apply (intro conjI)
           apply (rule run)
          apply (rule keys)
         apply (rule meta)
        apply (rule items)
       apply (rule rest)
      apply (rule mf)
     apply (rule other)
    apply (rule ann)
    done
qed


theorem PruneForStructuredOutput_resource_witness:
  "map_of annotatedPod ''metadata'' =
     Some (Mapping
         [(''name'', String ''test-pod''),
          (''managedFields'', Sequence [String ''field-manager-data'']),
          (''annotations'', Mapping
             [(''kubectl.kubernetes.io/last-applied-configuration'', String ''{}''),
              (''app.kubernetes.io/name'', String ''myapp'')])]) \<and>
   (\<exists>m' md' an'.
      PruneForStructuredOutput (Mapping annotatedPod) = Mapping m' \<and>
      map fst m' = [''apiVersion'', ''kind'', ''metadata''] \<and>
      map_of m' ''kind'' = Some (String ''Pod'') \<and>
      map_of m' ''metadata'' = Some (Mapping md') \<and>
      map_of md' ''managedFields'' = None \<and>
      map_of md' ''name'' = Some (String ''test-pod'') \<and>
      map_of md' ''annotations'' = Some (Mapping an') \<and>
      map_of an' ''kubectl.kubernetes.io/last-applied-configuration'' = None \<and>
      map_of an' ''app.kubernetes.io/name'' = Some (String ''myapp''))"
proof -
  let ?an = "[(''kubectl.kubernetes.io/last-applied-configuration'', String ''{}''),
              (''app.kubernetes.io/name'', String ''myapp'')] :: (string \<times> int Value) list"
  let ?md = "[(''name'', String ''test-pod''),
          (''managedFields'', Sequence [String ''field-manager-data'']),
          (''annotations'', Mapping ?an)]"
  have meta: "map_of annotatedPod ''metadata'' = Some (Mapping ?md)"
    by (simp add: annotatedPod_def)
  have keys: "map fst annotatedPod = [''apiVersion'', ''kind'', ''metadata'']"
    by (simp add: annotatedPod_def)
  have kind: "map_of annotatedPod ''kind'' = Some (String ''Pod'')"
    by (simp add: annotatedPod_def)
  have noitems: "map_of annotatedPod ''items'' = None"
    by (simp add: annotatedPod_def)
  have ann: "map_of ?md ''annotations'' = Some (Mapping ?an)" by simp
  have name: "map_of ?md ''name'' = Some (String ''test-pod'')" by simp
  have more: "\<not> (\<forall>k. k \<noteq> ''kubectl.kubernetes.io/last-applied-configuration'' \<longrightarrow>
                    map_of ?an k = None)"
    by (auto intro!: exI [of _ "''app.kubernetes.io/name''"])
  have "\<exists>m' md'.
     PruneForStructuredOutput (Mapping annotatedPod) = Mapping m' \<and>
     map fst m' = map fst annotatedPod \<and>
     map_of m' ''metadata'' = Some (Mapping md') \<and>
     map_of m' ''items'' =
       (case map_of annotatedPod ''items'' of
          Some (Sequence items) \<Rightarrow>
            Some (Sequence (map (\<lambda>x. case x of Mapping e \<Rightarrow> PruneForStructuredOutput x
                                      | _ \<Rightarrow> x) items))
        | other \<Rightarrow> other) \<and>
     (\<forall>k. k \<noteq> ''metadata'' \<and> k \<noteq> ''items'' \<longrightarrow> map_of m' k = map_of annotatedPod k) \<and>
     map_of md' ''managedFields'' = None \<and>
     (\<forall>k. k \<noteq> ''managedFields'' \<and> k \<noteq> ''annotations'' \<longrightarrow> map_of md' k = map_of ?md k) \<and>
     (case map_of ?md ''annotations'' of
        Some (Mapping an) \<Rightarrow>
          if \<forall>k. k \<noteq> ''kubectl.kubernetes.io/last-applied-configuration'' \<longrightarrow>
                 map_of an k = None
          then map_of md' ''annotations'' = None
          else \<exists>an'. map_of md' ''annotations'' = Some (Mapping an') \<and>
                (\<forall>k. map_of an' k =
                   (if k = ''kubectl.kubernetes.io/last-applied-configuration'' then None
                    else map_of an k))
      | other \<Rightarrow> map_of md' ''annotations'' = other)"
    by (rule PruneForStructuredOutput_resource [OF meta])
  then obtain m' md' where
    r1: "PruneForStructuredOutput (Mapping annotatedPod) = Mapping m'" and
    r2: "map fst m' = map fst annotatedPod" and
    r3: "map_of m' ''metadata'' = Some (Mapping md')" and
    r4: "\<forall>k. k \<noteq> ''metadata'' \<and> k \<noteq> ''items'' \<longrightarrow> map_of m' k = map_of annotatedPod k" and
    r5: "map_of md' ''managedFields'' = None" and
    r6: "\<forall>k. k \<noteq> ''managedFields'' \<and> k \<noteq> ''annotations'' \<longrightarrow>
             map_of md' k = map_of ?md k" and
    r7: "case map_of ?md ''annotations'' of
        Some (Mapping an) \<Rightarrow>
          if \<forall>k. k \<noteq> ''kubectl.kubernetes.io/last-applied-configuration'' \<longrightarrow>
                 map_of an k = None
          then map_of md' ''annotations'' = None
          else \<exists>an'. map_of md' ''annotations'' = Some (Mapping an') \<and>
                (\<forall>k. map_of an' k =
                   (if k = ''kubectl.kubernetes.io/last-applied-configuration'' then None
                    else map_of an k))
      | other \<Rightarrow> map_of md' ''annotations'' = other"
    by (elim exE conjE)
  have "\<exists>an'. map_of md' ''annotations'' = Some (Mapping an') \<and>
                (\<forall>k. map_of an' k =
                   (if k = ''kubectl.kubernetes.io/last-applied-configuration'' then None
                    else map_of ?an k))"
    using r7 more by (simp only: ann option.case Value.case if_False)
  then obtain an' where
    an1: "map_of md' ''annotations'' = Some (Mapping an')" and
    an2: "\<forall>k. map_of an' k =
                   (if k = ''kubectl.kubernetes.io/last-applied-configuration'' then None
                    else map_of ?an k)"
    by (elim exE conjE)
  have a1: "map_of an' ''kubectl.kubernetes.io/last-applied-configuration'' = None"
    using an2 by simp
  have a2: "map_of an' ''app.kubernetes.io/name'' = Some (String ''myapp'')"
    using an2 by simp
  have k: "map_of m' ''kind'' = Some (String ''Pod'')"
    using r4 kind by simp
  have n: "map_of md' ''name'' = Some (String ''test-pod'')"
    using r6 name by simp
  have keys': "map fst m' = [''apiVersion'', ''kind'', ''metadata'']"
    using r2 keys by simp
  have "\<exists>m' md' an'.
      PruneForStructuredOutput (Mapping annotatedPod) = Mapping m' \<and>
      map fst m' = [''apiVersion'', ''kind'', ''metadata''] \<and>
      map_of m' ''kind'' = Some (String ''Pod'') \<and>
      map_of m' ''metadata'' = Some (Mapping md') \<and>
      map_of md' ''managedFields'' = None \<and>
      map_of md' ''name'' = Some (String ''test-pod'') \<and>
      map_of md' ''annotations'' = Some (Mapping an') \<and>
      map_of an' ''kubectl.kubernetes.io/last-applied-configuration'' = None \<and>
      map_of an' ''app.kubernetes.io/name'' = Some (String ''myapp'')"
    using r1 keys' k r3 r5 n an1 a1 a2 by (intro exI conjI)
  with meta show ?thesis by (rule conjI)
qed


section \<open>Values the normalizer leaves alone\<close>

text \<open>
  Claim C9.  \<open>Null\<close>, a boolean, a number, a string, and a mapping without a \<open>metadata\<close>
  entry are returned as they are; the normalizer has no failing case.
\<close>

theorem PruneForStructuredOutput_noop:
  "PruneForStructuredOutput (Null :: 'n Value) = Null \<and>
   PruneForStructuredOutput (Boolean b :: 'n Value) = Boolean b \<and>
   PruneForStructuredOutput (Number (n :: 'n)) = Number n \<and>
   PruneForStructuredOutput (String s :: 'n Value) = String s \<and>
   (map_of m ''metadata'' = None \<longrightarrow>
      PruneForStructuredOutput (Mapping m :: 'n Value) = Mapping m)"
  by simp

theorem PruneForStructuredOutput_noop_witness:
  "map_of [(''data'', String ''no-metadata-here'' :: int Value)] ''metadata'' = None \<and>
   PruneForStructuredOutput (Mapping [(''data'', String ''no-metadata-here'' :: int Value)])
     = Mapping [(''data'', String ''no-metadata-here'')] \<and>
   PruneForStructuredOutput (String ''a string'' :: int Value) = String ''a string'' \<and>
   PruneForStructuredOutput (Null :: int Value) = Null"
proof -
  have absent: "map_of [(''data'', String ''no-metadata-here'' :: int Value)] ''metadata'' = None"
    by simp
  show ?thesis
    using absent
      PruneForStructuredOutput_noop
        [of True "0 :: int" "''a string''" "[(''data'', String ''no-metadata-here'' :: int Value)]"]
    by (simp del: PruneForStructuredOutput.simps)
qed


end
